theory Spec2Isabelle
  imports Main "HOL-Library.AList" "HOL-Library.Word"
begin

section \<open>Data model\<close>

text \<open>
  A Go \<open>error\<close> value is modelled by its message: \<open>None\<close> is \<open>nil\<close>, \<open>Some msg\<close> is an
  error whose \<open>Error()\<close> text is \<open>msg\<close>.
\<close>

type_synonym error = "string option"

text \<open>
  \<open>grpc_health_v1.HealthCheckResponse_ServingStatus\<close> is an \<open>int32\<close>; the health protocol
  fixes the values of its named constants.
\<close>

type_synonym ServingStatus = "32 word"

abbreviation UNKNOWN :: ServingStatus where "UNKNOWN \<equiv> 0"
abbreviation SERVING :: ServingStatus where "SERVING \<equiv> 1"
abbreviation NOT_SERVING :: ServingStatus where "NOT_SERVING \<equiv> 2"
abbreviation SERVICE_UNKNOWN :: ServingStatus where "SERVICE_UNKNOWN \<equiv> 3"

text \<open>
  The struct \<open>grpcHandler\<close>. Each Go map is an association list read with \<open>map_of\<close> and
  written with \<open>AList.update\<close>; a \<open>range\<close> loop visits the entries in list order (Go
  leaves the order unspecified, and no result below depends on it). The field
  \<open>grpcHealthServer\<close> holds the one thing the handler does with the health server: the
  serving status last set for the service name \<open>""\<close>. Mutexes, the logger and the
  cancellation context carry no data of their own.
\<close>

record grpcHandler =
  readinessChecks :: "(string \<times> error) list"
  livenessChecks :: "(string \<times> error) list"
  grpcDeps :: "(string \<times> bool) list"
  grpcHealthServer :: ServingStatus

text \<open>Reading a Go map at a key that is absent yields the zero value of the value type.\<close>

definition checkAt :: "(string \<times> error) list \<Rightarrow> string \<Rightarrow> error" where
  "checkAt m name = (case map_of m name of None \<Rightarrow> None | Some r \<Rightarrow> r)"

definition depAt :: "(string \<times> bool) list \<Rightarrow> string \<Rightarrow> bool" where
  "depAt m name = (case map_of m name of None \<Rightarrow> False | Some b \<Rightarrow> b)"

definition SetServingStatus :: "ServingStatus \<Rightarrow> grpcHandler \<Rightarrow> grpcHandler" where
  "SetServingStatus st s = s\<lparr>grpcHealthServer := st\<rparr>"

definition NewGrpcHandler :: grpcHandler where
  "NewGrpcHandler =
     SetServingStatus NOT_SERVING
       \<lparr>readinessChecks = [], livenessChecks = [], grpcDeps = [], grpcHealthServer = SERVING\<rparr>"

section \<open>Aggregates\<close>

fun allNil :: "(string \<times> error) list \<Rightarrow> bool" where
  "allNil [] = True"
| "allNil ((name, checkResult) # rest) = (if checkResult \<noteq> None then False else allNil rest)"

definition areChecksOk :: "grpcHandler \<Rightarrow> bool" where
  "areChecksOk s =
     (if \<not> allNil (readinessChecks s) then False else allNil (livenessChecks s))"

fun allUp :: "(string \<times> bool) list \<Rightarrow> bool" where
  "allUp [] = True"
| "allUp ((name, checkResult) # rest) = (if \<not> checkResult then False else allUp rest)"

definition areGrpcDepsOk :: "grpcHandler \<Rightarrow> bool" where
  "areGrpcDepsOk s = allUp (grpcDeps s)"

text \<open>
  The three \<open>...OkWithResults\<close> methods walk one map, write one text per name into the
  caller's \<open>results\<close> map and return whether every entry was healthy.
\<close>

type_synonym results = "(string \<times> string) list"

fun checksWithResults :: "(string \<times> error) list \<Rightarrow> bool \<times> results \<Rightarrow> bool \<times> results" where
  "checksWithResults [] acc = acc"
| "checksWithResults ((name, checkResult) # rest) (ok, results) =
     (case checkResult of
        Some msg \<Rightarrow> checksWithResults rest (False, AList.update name msg results)
      | None \<Rightarrow> checksWithResults rest (ok, AList.update name ''OK'' results))"

definition readinessOkWithResults :: "grpcHandler \<Rightarrow> results \<Rightarrow> bool \<times> results" where
  "readinessOkWithResults s results = checksWithResults (readinessChecks s) (True, results)"

definition livenessOkWithResults :: "grpcHandler \<Rightarrow> results \<Rightarrow> bool \<times> results" where
  "livenessOkWithResults s results = checksWithResults (livenessChecks s) (True, results)"

fun depsWithResults :: "(string \<times> bool) list \<Rightarrow> bool \<times> results \<Rightarrow> bool \<times> results" where
  "depsWithResults [] acc = acc"
| "depsWithResults ((name, checkResult) # rest) (ok, results) =
     (if \<not> checkResult
      then depsWithResults rest (False, AList.update name ''grpc service is down'' results)
      else depsWithResults rest (ok, AList.update name ''OK'' results))"

definition grpcDepsOkWithResults :: "grpcHandler \<Rightarrow> results \<Rightarrow> bool \<times> results" where
  "grpcDepsOkWithResults s results = depsWithResults (grpcDeps s) (True, results)"

section \<open>Registration\<close>

text \<open>
  Each \<open>Add...\<close> method returns its error and the handler after the call. The background
  task it starts is not part of the handler's data: its runs are the functions
  \<open>readinessRun\<close>, \<open>livenessRun\<close> and \<open>watchIter\<close> below.
\<close>

definition quoted :: "string \<Rightarrow> string" where
  "quoted name = CHR 0x27 # name @ [CHR 0x27]"

definition AddReadinessCheck :: "string \<Rightarrow> grpcHandler \<Rightarrow> error \<times> grpcHandler" where
  "AddReadinessCheck name s =
     (if map_of (readinessChecks s) name \<noteq> None
      then (Some (''readiness check '' @ quoted name @ '' already exists''), s)
      else (None,
            s\<lparr>readinessChecks := AList.update name (Some ''placeholder'') (readinessChecks s)\<rparr>))"

definition AddLivenessCheck :: "string \<Rightarrow> grpcHandler \<Rightarrow> error \<times> grpcHandler" where
  "AddLivenessCheck name s =
     (if map_of (livenessChecks s) name \<noteq> None
      then (Some (''liveness check '' @ quoted name @ '' already exists''), s)
      else (None,
            s\<lparr>livenessChecks := AList.update name (Some ''placeholder'') (livenessChecks s)\<rparr>))"

text \<open>
  \<open>watchErr\<close> is the error returned by \<open>grpcClient.Watch\<close>; when it is not \<open>nil\<close> the
  method returns it, after the name has been stored, and starts no watch task.
\<close>

definition AddGrpcReadinessCheck :: "string \<Rightarrow> error \<Rightarrow> grpcHandler \<Rightarrow> error \<times> grpcHandler" where
  "AddGrpcReadinessCheck name watchErr s =
     (if map_of (grpcDeps s) name \<noteq> None
      then (Some (''grpc readiness check '' @ quoted name @ '' already exists''), s)
      else (let s' = s\<lparr>grpcDeps := AList.update name False (grpcDeps s)\<rparr>
            in if watchErr \<noteq> None then (watchErr, s') else (None, s')))"

section \<open>The code after the unlock\<close>

text \<open>
  A closure and the watch task release their mutex right after the compare-and-store
  and only then read the aggregates and call \<open>SetServingStatus\<close>. Other tasks can run
  between any two of these calls, so each call is a step of its own and \<open>pc\<close> says
  which call the task makes next:
  \<^item> \<open>BeforeSetNotServing\<close>: a failure was stored, \<open>SetServingStatus(NOT_SERVING)\<close> is next;
  \<^item> \<open>BeforeChecksThenDeps\<close>: a closure stored a recovery; \<open>areChecksOk\<close> is next;
  \<^item> \<open>BeforeDeps\<close>: the closure read \<open>areChecksOk\<close> as true; \<open>areGrpcDepsOk\<close> is next;
  \<^item> \<open>BeforeDepsThenChecks\<close>: the watch task stored a recovery; \<open>areGrpcDepsOk\<close> is next;
  \<^item> \<open>BeforeChecks\<close>: the watch task read \<open>areGrpcDepsOk\<close> as true; \<open>areChecksOk\<close> is next;
  \<^item> \<open>BeforeSetServing\<close>: \<open>ok\<close> is true, \<open>SetServingStatus(SERVING)\<close> is next.
  Each aggregate is read under the read lock of its mutex, and \<open>SetServingStatus\<close> is
  one call, so each step is atomic. In \<open>ok = ok && f()\<close> the call \<open>f()\<close> is skipped once
  \<open>ok\<close> is false, and nothing more is done then.
\<close>

datatype pc =
    BeforeSetNotServing
  | BeforeChecksThenDeps
  | BeforeDeps
  | BeforeDepsThenChecks
  | BeforeChecks
  | BeforeSetServing

fun resume :: "pc \<Rightarrow> grpcHandler \<Rightarrow> pc option \<times> grpcHandler" where
  "resume BeforeSetNotServing s = (None, SetServingStatus NOT_SERVING s)"
| "resume BeforeChecksThenDeps s = (if areChecksOk s then (Some BeforeDeps, s) else (None, s))"
| "resume BeforeDeps s = (if areGrpcDepsOk s then (Some BeforeSetServing, s) else (None, s))"
| "resume BeforeDepsThenChecks s =
     (if areGrpcDepsOk s then (Some BeforeChecks, s) else (None, s))"
| "resume BeforeChecks s = (if areChecksOk s then (Some BeforeSetServing, s) else (None, s))"
| "resume BeforeSetServing s = (None, SetServingStatus SERVING s)"

text \<open>
  The rest of a run when no other task steps in: at most three calls follow an unlock.
\<close>

definition followThrough :: "pc option \<times> grpcHandler \<Rightarrow> pc option \<times> grpcHandler" where
  "followThrough x = (case x of (None, s) \<Rightarrow> (None, s) | (Some p, s) \<Rightarrow> resume p s)"

definition finish :: "pc option \<times> grpcHandler \<Rightarrow> grpcHandler" where
  "finish x = snd (followThrough (followThrough (followThrough x)))"

section \<open>One run of a scheduled check\<close>

text \<open>
  The closure handed to \<open>AsyncWithContext\<close>, with the value \<open>err\<close> that \<open>check()\<close>
  returned in this run. \<open>readinessLocked\<close> and \<open>livenessLocked\<close> are the part between
  \<open>checksMutex.Lock()\<close> and \<open>checksMutex.Unlock()\<close>; they return the handler and the
  call that comes next, if any.
\<close>

definition readinessLocked :: "string \<Rightarrow> error \<Rightarrow> grpcHandler \<Rightarrow> pc option \<times> grpcHandler" where
  "readinessLocked name err s =
     (if checkAt (readinessChecks s) name = None \<and> err \<noteq> None then
        (Some BeforeSetNotServing,
         s\<lparr>readinessChecks := AList.update name err (readinessChecks s)\<rparr>)
      else if checkAt (readinessChecks s) name \<noteq> None \<and> err = None then
        (Some BeforeChecksThenDeps,
         s\<lparr>readinessChecks := AList.update name err (readinessChecks s)\<rparr>)
      else (None, s))"

definition livenessLocked :: "string \<Rightarrow> error \<Rightarrow> grpcHandler \<Rightarrow> pc option \<times> grpcHandler" where
  "livenessLocked name err s =
     (if checkAt (livenessChecks s) name = None \<and> err \<noteq> None then
        (Some BeforeSetNotServing,
         s\<lparr>livenessChecks := AList.update name err (livenessChecks s)\<rparr>)
      else if checkAt (livenessChecks s) name \<noteq> None \<and> err = None then
        (Some BeforeChecksThenDeps,
         s\<lparr>livenessChecks := AList.update name err (livenessChecks s)\<rparr>)
      else (None, s))"

text \<open>A whole run of the closure during which no other task takes a step.\<close>

definition readinessRun :: "string \<Rightarrow> error \<Rightarrow> grpcHandler \<Rightarrow> grpcHandler" where
  "readinessRun name err s = finish (readinessLocked name err s)"

definition livenessRun :: "string \<Rightarrow> error \<Rightarrow> grpcHandler \<Rightarrow> grpcHandler" where
  "livenessRun name err s = finish (livenessLocked name err s)"

section \<open>The watch task of a gRPC dependency\<close>

text \<open>
  \<open>stream.Recv()\<close> returns a response pointer and an error. The pointer is \<open>None\<close> when
  it is \<open>nil\<close>, which is what the generated stream client returns together with every
  error, \<open>io.EOF\<close> included.
\<close>

datatype recvErr = NoErr | EOF | OtherErr string

type_synonym recv = "ServingStatus option \<times> recvErr"

text \<open>
  What one pass through the body of the \<open>for\<close> loop leaves the task doing: going round
  again, returned for good, or stopped by a nil-pointer panic, which in a goroutine
  without \<open>recover\<close> ends the whole process.
\<close>

datatype outcome = Continue | Returned | Panicked

text \<open>
  The second \<open>switch\<close> of the loop body from \<open>grpcDepsMutex.Lock()\<close> to the \<open>Unlock()\<close> of
  the branch taken. Its first condition reads \<open>resp.Status\<close>, which dereferences
  \<open>resp\<close>.
\<close>

definition watchLocked ::
  "string \<Rightarrow> ServingStatus option \<Rightarrow> grpcHandler \<Rightarrow> outcome \<times> pc option \<times> grpcHandler" where
  "watchLocked name resp s =
     (case resp of
        None \<Rightarrow> (Panicked, None, s)
      | Some status \<Rightarrow>
          if status = SERVING \<and> \<not> depAt (grpcDeps s) name then
            (Continue, Some BeforeDepsThenChecks,
             s\<lparr>grpcDeps := AList.update name True (grpcDeps s)\<rparr>)
          else if status = NOT_SERVING \<and> depAt (grpcDeps s) name then
            (Continue, Some BeforeSetNotServing,
             s\<lparr>grpcDeps := AList.update name False (grpcDeps s)\<rparr>)
          else (Continue, None, s))"

text \<open>
  One pass through the loop body up to the unlock. The first \<open>switch\<close>: on \<open>io.EOF\<close> its
  \<open>break\<close> leaves the \<open>switch\<close> (not the loop), so control goes on to the second
  \<open>switch\<close>; on any other error the task returns.
\<close>

definition watchPass ::
  "string \<Rightarrow> recv \<Rightarrow> grpcHandler \<Rightarrow> outcome \<times> pc option \<times> grpcHandler" where
  "watchPass name r s =
     (case r of (resp, err) \<Rightarrow>
        if err = EOF then watchLocked name resp s
        else if err \<noteq> NoErr then (Returned, None, s)
        else watchLocked name resp s)"

text \<open>A whole pass through the loop body during which no other task takes a step.\<close>

definition watchIter :: "string \<Rightarrow> recv \<Rightarrow> grpcHandler \<Rightarrow> outcome \<times> grpcHandler" where
  "watchIter name r s =
     (case watchPass name r s of (out, p, s') \<Rightarrow> (out, finish (p, s')))"

text \<open>
  The \<open>for\<close> loop over the values the stream delivers. When the list is used up the task
  is waiting in \<open>Recv\<close>, which is \<open>Continue\<close>.
\<close>

fun watchLoop :: "string \<Rightarrow> recv list \<Rightarrow> grpcHandler \<Rightarrow> outcome \<times> grpcHandler" where
  "watchLoop name [] s = (Continue, s)"
| "watchLoop name (r # rs) s =
     (case watchIter name r s of
        (Continue, s') \<Rightarrow> watchLoop name rs s'
      | (out, s') \<Rightarrow> (out, s'))"

section \<open>HTTP endpoints\<close>

text \<open>
  Of a request the endpoints read the method and the value of the query parameter
  \<open>full\<close> (the empty string when it is absent). The response is what was written to
  the \<open>ResponseWriter\<close>; \<open>Json results\<close> stands for the JSON encoding of the map.
\<close>

record request =
  httpMethod :: string
  queryFull :: string

datatype body = Text string | Json results

record response =
  statusCode :: nat
  contentType :: string
  payload :: body

text \<open>\<open>http.Error(w, "method not allowed", http.StatusMethodNotAllowed)\<close>.\<close>

definition methodNotAllowed :: response where
  "methodNotAllowed =
     \<lparr>statusCode = 405, contentType = ''text/plain; charset=utf-8'',
      payload = Text (''method not allowed'' @ [CHR 0x0A])\<rparr>"

text \<open>
  The part of \<open>ReadyEndpoint\<close> that computes \<open>ok\<close> and fills \<open>results\<close>.
  \<open>ok = ok && f(results)\<close> calls \<open>f\<close> only while \<open>ok\<close> is still true: Go's \<open>&&\<close> does not
  evaluate its right operand when the left one is false.
\<close>

definition readyCollect :: "grpcHandler \<Rightarrow> bool \<times> results" where
  "readyCollect s =
     (let (ok1, res1) = livenessOkWithResults s [];
          (ok2, res2) = (if ok1 then readinessOkWithResults s res1 else (False, res1));
          (ok3, res3) = (if ok2 then grpcDepsOkWithResults s res2 else (False, res2))
      in (ok3, res3))"

definition ReadyEndpoint :: "request \<Rightarrow> grpcHandler \<Rightarrow> response" where
  "ReadyEndpoint r s =
     (if httpMethod r \<noteq> ''GET'' then methodNotAllowed
      else (case readyCollect s of (ok, results) \<Rightarrow>
        \<lparr>statusCode = (if \<not> ok then 503 else 200),
         contentType = ''application/json; charset=utf-8'',
         payload = (if queryFull r \<noteq> ''1'' then Text (''{}'' @ [CHR 0x0A])
                    else Json results)\<rparr>))"

definition LiveEndpoint :: "request \<Rightarrow> grpcHandler \<Rightarrow> response" where
  "LiveEndpoint r s =
     (if httpMethod r \<noteq> ''GET'' then methodNotAllowed
      else (case livenessOkWithResults s [] of (ok, results) \<Rightarrow>
        \<lparr>statusCode = (if \<not> ok then 503 else 200),
         contentType = ''application/json; charset=utf-8'',
         payload = (if queryFull r \<noteq> ''1'' then Text (''{}'' @ [CHR 0x0A])
                    else Json results)\<rparr>))"

section \<open>The gRPC unary check\<close>

text \<open>
  \<open>CheckGRPC\<close> returns a closure; \<open>reply\<close> is what \<open>grpcClient.Check\<close> returned in one call
  of it (a call that outlives the one-second context comes back as an error), and
  \<open>statusName\<close> is the table \<open>HealthCheckResponse_ServingStatus_name\<close> of the gRPC
  library. \<open>Inl ()\<close> is the nil-pointer panic of reading \<open>resp.Status\<close> through a \<open>nil\<close>
  response.
\<close>

definition CheckGRPC ::
  "(ServingStatus \<Rightarrow> string) \<Rightarrow> ServingStatus option \<times> error \<Rightarrow> unit + error" where
  "CheckGRPC statusName reply =
     (case reply of (resp, err) \<Rightarrow>
        (case err of
           Some msg \<Rightarrow> Inr (Some (''gRPC healthcheck failed: '' @ msg))
         | None \<Rightarrow>
             (case resp of
                None \<Rightarrow> Inl ()
              | Some status \<Rightarrow>
                  if status \<noteq> SERVING
                  then Inr (Some (''gRPC healthcheck failed, bad status: '' @ statusName status))
                  else Inr None)))"

section \<open>The handler and its background tasks as a system\<close>

text \<open>
  The calls that start something: a registration, one run of a scheduled check with
  the error it produced, one value received by a watch task.
\<close>

datatype event =
    RegReadiness string
  | RegLiveness string
  | RegGrpc string error
  | RunReadiness string error
  | RunLiveness string error
  | Recv string recv

fun step :: "event \<Rightarrow> grpcHandler \<Rightarrow> grpcHandler" where
  "step (RegReadiness name) s = snd (AddReadinessCheck name s)"
| "step (RegLiveness name) s = snd (AddLivenessCheck name s)"
| "step (RegGrpc name watchErr) s = snd (AddGrpcReadinessCheck name watchErr s)"
| "step (RunReadiness name err) s = readinessRun name err s"
| "step (RunLiveness name err) s = livenessRun name err s"
| "step (Recv name r) s = snd (watchIter name r s)"

text \<open>
  \<open>step\<close> takes a registration, a whole run or a whole watch pass at once, and \<open>exec\<close>
  a list of them: these are the executions in which every run and every pass
  finishes before the next call starts. The executions in which tasks overlap are
  those of \<open>interleave\<close> below.
\<close>

fun exec :: "event list \<Rightarrow> grpcHandler \<Rightarrow> grpcHandler" where
  "exec [] s = s"
| "exec (e # es) s = exec es (step e s)"


section \<open>Interleaved execution\<close>

text \<open>
  Every registered check has one goroutine that runs its closure again and again, and
  every gRPC dependency has one watch goroutine; a task is named by its namespace and
  the name it was registered under. The system is the handler together with, for each
  task that is between an unlock and the end of its run, the call it makes next.
\<close>

datatype namespace = Readiness | Liveness | GrpcDependency

type_synonym task = "namespace \<times> string"

record system =
  handler :: grpcHandler
  pending :: "(task \<times> pc) list"


fun taskOf :: "event \<Rightarrow> task option" where
  "taskOf (RunReadiness name err) = Some (Readiness, name)"
| "taskOf (RunLiveness name err) = Some (Liveness, name)"
| "taskOf (Recv name r) = Some (GrpcDependency, name)"
| "taskOf e = None"

text \<open>
  What a call does while it holds its mutex: a registration is made entirely under
  the lock; a run and a watch pass go as far as their unlock.
\<close>

fun locked :: "event \<Rightarrow> grpcHandler \<Rightarrow> pc option \<times> grpcHandler" where
  "locked (RegReadiness name) s = (None, snd (AddReadinessCheck name s))"
| "locked (RegLiveness name) s = (None, snd (AddLivenessCheck name s))"
| "locked (RegGrpc name watchErr) s = (None, snd (AddGrpcReadinessCheck name watchErr s))"
| "locked (RunReadiness name err) s = readinessLocked name err s"
| "locked (RunLiveness name err) s = livenessLocked name err s"
| "locked (Recv name r) s = snd (watchPass name r s)"

definition setPending :: "task \<Rightarrow> pc option \<Rightarrow> (task \<times> pc) list \<Rightarrow> (task \<times> pc) list" where
  "setPending t p ps = (case p of None \<Rightarrow> AList.delete t ps | Some q \<Rightarrow> AList.update t q ps)"

text \<open>
  Modelled from the spec: \<open>checks.AsyncWithContext\<close>, which schedules the closure, is
  not among the sources. The spec gives every registered check one background task
  that invokes the check at every interval, so that the updates of one name's result
  are totally ordered: a task starts its next run only after the previous one has
  finished. The watch task is one \<open>for\<close> loop, so the same holds for its passes.
\<close>

definition busy :: "event \<Rightarrow> system \<Rightarrow> bool" where
  "busy e sys = (case taskOf e of None \<Rightarrow> False | Some t \<Rightarrow> map_of (pending sys) t \<noteq> None)"

text \<open>
  One move of the system: \<open>Call e\<close> is the locked part of \<open>e\<close>, \<open>Resume t\<close> is the next
  call of task \<open>t\<close> after its unlock. A move that cannot happen (a call of a busy task,
  a resume of a task with nothing pending) leaves the system as it is. Every list of
  moves is an interleaving; those of the program are among them (there a task only
  runs for a registered name, and a watch task receives nothing more once it has
  returned or panicked).
\<close>

datatype move = Call event | Resume task

fun advance :: "move \<Rightarrow> system \<Rightarrow> system" where
  "advance (Call e) sys =
     (if busy e sys then sys
      else (case locked e (handler sys) of (p, s') \<Rightarrow>
        (case taskOf e of
           None \<Rightarrow> sys\<lparr>handler := s'\<rparr>
         | Some t \<Rightarrow> \<lparr>handler = s', pending = setPending t p (pending sys)\<rparr>)))"
| "advance (Resume t) sys =
     (case map_of (pending sys) t of
        None \<Rightarrow> sys
      | Some q \<Rightarrow> (case resume q (handler sys) of (p, s') \<Rightarrow>
          \<lparr>handler = s', pending = setPending t p (pending sys)\<rparr>))"

fun interleave :: "move list \<Rightarrow> system \<Rightarrow> system" where
  "interleave [] sys = sys"
| "interleave (m # ms) sys = interleave ms (advance m sys)"










section \<open>Uninterrupted runs in one equation\<close>

lemma followThrough_done:
  "fst (followThrough (followThrough (followThrough x))) = None"
proof (cases x)
  case (Pair p s)
  show ?thesis
  proof (cases p)
    case None
    with Pair show ?thesis by (simp add: followThrough_def)
  next
    case (Some q)
    with Pair show ?thesis by (cases q) (simp_all add: followThrough_def)
  qed
qed

lemma readinessRun_unfold:
  "readinessRun name err s =
     (if checkAt (readinessChecks s) name = None \<and> err \<noteq> None then
        SetServingStatus NOT_SERVING
          (s\<lparr>readinessChecks := AList.update name err (readinessChecks s)\<rparr>)
      else if checkAt (readinessChecks s) name \<noteq> None \<and> err = None then
        (let s' = s\<lparr>readinessChecks := AList.update name err (readinessChecks s)\<rparr>;
             ok = (if areChecksOk s' then areGrpcDepsOk s' else False)
         in if ok then SetServingStatus SERVING s' else s')
      else s)"
  by (simp add: readinessRun_def readinessLocked_def finish_def followThrough_def Let_def)

lemma livenessRun_unfold:
  "livenessRun name err s =
     (if checkAt (livenessChecks s) name = None \<and> err \<noteq> None then
        SetServingStatus NOT_SERVING
          (s\<lparr>livenessChecks := AList.update name err (livenessChecks s)\<rparr>)
      else if checkAt (livenessChecks s) name \<noteq> None \<and> err = None then
        (let s' = s\<lparr>livenessChecks := AList.update name err (livenessChecks s)\<rparr>;
             ok = (if areChecksOk s' then areGrpcDepsOk s' else False)
         in if ok then SetServingStatus SERVING s' else s')
      else s)"
  by (simp add: livenessRun_def livenessLocked_def finish_def followThrough_def Let_def)

lemma watchIter_unfold:
  "watchIter name (resp, err) s =
     (if err \<noteq> EOF \<and> err \<noteq> NoErr then (Returned, s)
      else (case resp of
              None \<Rightarrow> (Panicked, s)
            | Some status \<Rightarrow>
                if status = SERVING \<and> \<not> depAt (grpcDeps s) name then
                  (let s' = s\<lparr>grpcDeps := AList.update name True (grpcDeps s)\<rparr>;
                       ok = (if areGrpcDepsOk s' then areChecksOk s' else False)
                   in if \<not> ok then (Continue, s')
                      else (Continue, SetServingStatus SERVING s'))
                else if status = NOT_SERVING \<and> depAt (grpcDeps s) name then
                  (Continue,
                   SetServingStatus NOT_SERVING
                     (s\<lparr>grpcDeps := AList.update name False (grpcDeps s)\<rparr>))
                else (Continue, s)))"
  by (simp add: watchIter_def watchPass_def watchLocked_def finish_def followThrough_def Let_def
      split: option.splits)

section \<open>Facts about the aggregates\<close>

lemma allNil_iff: "allNil m \<longleftrightarrow> (\<forall>(name, r) \<in> set m. r = None)"
  by (induction m rule: allNil.induct) auto

lemma allUp_iff: "allUp m \<longleftrightarrow> (\<forall>(name, b) \<in> set m. b)"
  by (induction m rule: allUp.induct) auto

section \<open>Facts about the endpoints\<close>

lemma checksWithResults_ok:
  "fst (checksWithResults m (ok, res)) \<longleftrightarrow> ok \<and> allNil m"
  by (induction m "(ok, res)" arbitrary: ok res rule: checksWithResults.induct)
     (auto split: option.splits)

lemma depsWithResults_ok:
  "fst (depsWithResults m (ok, res)) \<longleftrightarrow> ok \<and> allUp m"
  by (induction m "(ok, res)" arbitrary: ok res rule: depsWithResults.induct) auto

lemma checksWithResults_keys:
  "fst ` set (snd (checksWithResults m (ok, res))) = fst ` set res \<union> fst ` set m"
  by (induction m "(ok, res)" arbitrary: ok res rule: checksWithResults.induct)
     (auto simp: dom_update split: option.splits)

lemma depsWithResults_keys:
  "fst ` set (snd (depsWithResults m (ok, res))) = fst ` set res \<union> fst ` set m"
  by (induction m "(ok, res)" arbitrary: ok res rule: depsWithResults.induct)
     (auto simp: dom_update)

lemma readyCollect_ok:
  "fst (readyCollect s) \<longleftrightarrow>
     allNil (livenessChecks s) \<and> allNil (readinessChecks s) \<and> allUp (grpcDeps s)"
  by (simp add: readyCollect_def livenessOkWithResults_def readinessOkWithResults_def
      grpcDepsOkWithResults_def case_prod_unfold checksWithResults_ok depsWithResults_ok Let_def)

lemma readyCollect_keys_subset:
  "fst ` set (snd (readyCollect s))
     \<subseteq> fst ` set (livenessChecks s) \<union> fst ` set (readinessChecks s) \<union> fst ` set (grpcDeps s)"
  by (auto simp add: readyCollect_def livenessOkWithResults_def readinessOkWithResults_def
      grpcDepsOkWithResults_def case_prod_unfold checksWithResults_keys depsWithResults_keys Let_def)

lemma readyCollect_keys_healthy:
  "fst (readyCollect s) \<Longrightarrow> fst ` set (snd (readyCollect s))
     = fst ` set (livenessChecks s) \<union> fst ` set (readinessChecks s) \<union> fst ` set (grpcDeps s)"
  by (auto simp add: readyCollect_def livenessOkWithResults_def readinessOkWithResults_def
      grpcDepsOkWithResults_def case_prod_unfold checksWithResults_keys depsWithResults_keys Let_def
       checksWithResults_ok depsWithResults_ok split: if_splits)


section \<open>Facts about runs, watch events and traces\<close>

lemma update_keeps_other:
  "(m, v) \<in> set xs \<Longrightarrow> m \<noteq> name \<Longrightarrow> (m, v) \<in> set (AList.update name w xs)"
  by (induction xs) auto

lemma allNil_failing: "(m, Some r) \<in> set xs \<Longrightarrow> \<not> allNil xs"
  by (auto simp: allNil_iff)

lemma allUp_down: "(m, False) \<in> set xs \<Longrightarrow> \<not> allUp xs"
  by (auto simp: allUp_iff)

lemma readinessRun_recovery_blocked:
  assumes "(\<exists>m r. (m, Some r) \<in> set (readinessChecks s) \<and> m \<noteq> name)
           \<or> (\<exists>m r. (m, Some r) \<in> set (livenessChecks s))
           \<or> (\<exists>m. (m, False) \<in> set (grpcDeps s))"
  shows "grpcHealthServer (readinessRun name None s) = grpcHealthServer s"
  using assms
  by (auto simp: readinessRun_unfold Let_def areChecksOk_def areGrpcDepsOk_def SetServingStatus_def
      dest: update_keeps_other allNil_failing allUp_down)

lemma livenessRun_recovery_blocked:
  assumes "(\<exists>m r. (m, Some r) \<in> set (readinessChecks s))
           \<or> (\<exists>m r. (m, Some r) \<in> set (livenessChecks s) \<and> m \<noteq> name)
           \<or> (\<exists>m. (m, False) \<in> set (grpcDeps s))"
  shows "grpcHealthServer (livenessRun name None s) = grpcHealthServer s"
  using assms
  by (auto simp: livenessRun_unfold Let_def areChecksOk_def areGrpcDepsOk_def SetServingStatus_def
      dest: update_keeps_other allNil_failing allUp_down)

lemma watchIter_recovery_blocked:
  assumes "(\<exists>m r. (m, Some r) \<in> set (readinessChecks s))
           \<or> (\<exists>m r. (m, Some r) \<in> set (livenessChecks s))
           \<or> (\<exists>m. (m, False) \<in> set (grpcDeps s) \<and> m \<noteq> name)"
  shows "grpcHealthServer (snd (watchIter name (Some SERVING, err) s)) = grpcHealthServer s"
  using assms
  by (auto simp: watchIter_unfold Let_def areChecksOk_def areGrpcDepsOk_def SetServingStatus_def
      dest: update_keeps_other allNil_failing allUp_down)

lemma step_keeps_readiness:
  "map_of (readinessChecks s) name = Some v \<Longrightarrow> \<forall>err. e \<noteq> RunReadiness name err
   \<Longrightarrow> map_of (readinessChecks (step e s)) name = Some v"
  by (cases e)
     (auto simp: AddReadinessCheck_def AddLivenessCheck_def AddGrpcReadinessCheck_def
        readinessRun_unfold livenessRun_unfold watchIter_unfold SetServingStatus_def Let_def update_conv'
        split: option.splits prod.splits)

lemma step_keeps_liveness:
  "map_of (livenessChecks s) name = Some v \<Longrightarrow> \<forall>err. e \<noteq> RunLiveness name err
   \<Longrightarrow> map_of (livenessChecks (step e s)) name = Some v"
  by (cases e)
     (auto simp: AddReadinessCheck_def AddLivenessCheck_def AddGrpcReadinessCheck_def
        readinessRun_unfold livenessRun_unfold watchIter_unfold SetServingStatus_def Let_def update_conv'
        split: option.splits prod.splits)

lemma step_keeps_grpcDep:
  "map_of (grpcDeps s) name = Some v \<Longrightarrow> \<forall>r. e \<noteq> Recv name r
   \<Longrightarrow> map_of (grpcDeps (step e s)) name = Some v"
  by (cases e)
     (auto simp: AddReadinessCheck_def AddLivenessCheck_def AddGrpcReadinessCheck_def
        readinessRun_unfold livenessRun_unfold watchIter_unfold SetServingStatus_def Let_def update_conv'
        split: option.splits prod.splits)

lemma exec_keeps_readiness:
  "map_of (readinessChecks s) name = Some v \<Longrightarrow> \<forall>err. RunReadiness name err \<notin> set evs
   \<Longrightarrow> map_of (readinessChecks (exec evs s)) name = Some v"
proof (induction evs arbitrary: s)
  case Nil
  then show ?case by simp
next
  case (Cons e evs)
  from Cons.prems have "map_of (readinessChecks (step e s)) name = Some v"
    by (intro step_keeps_readiness) auto
  with Cons show ?case by simp
qed

lemma exec_keeps_liveness:
  "map_of (livenessChecks s) name = Some v \<Longrightarrow> \<forall>err. RunLiveness name err \<notin> set evs
   \<Longrightarrow> map_of (livenessChecks (exec evs s)) name = Some v"
proof (induction evs arbitrary: s)
  case Nil
  then show ?case by simp
next
  case (Cons e evs)
  from Cons.prems have "map_of (livenessChecks (step e s)) name = Some v"
    by (intro step_keeps_liveness) auto
  with Cons show ?case by simp
qed

lemma exec_keeps_grpcDep:
  "map_of (grpcDeps s) name = Some v \<Longrightarrow> \<forall>r. Recv name r \<notin> set evs
   \<Longrightarrow> map_of (grpcDeps (exec evs s)) name = Some v"
proof (induction evs arbitrary: s)
  case Nil
  then show ?case by simp
next
  case (Cons e evs)
  from Cons.prems have "map_of (grpcDeps (step e s)) name = Some v"
    by (intro step_keeps_grpcDep) auto
  with Cons show ?case by simp
qed

lemma watch_transport_error_returns:
  "watchIter name (resp, OtherErr msg) s = (Returned, s)
   \<and> watchLoop name ((resp, OtherErr msg) # rest) s = (Returned, s)"
  by (simp add: watchIter_unfold)

lemma watch_eof_with_response_continues:
  "fst (watchIter name (Some st, EOF) s) = Continue"
  by (simp add: watchIter_unfold Let_def)


lemma allNil_checkAt: "allNil xs \<Longrightarrow> checkAt xs name = None"
  by (auto simp: allNil_iff checkAt_def split: option.splits dest: map_of_SomeD)

section \<open>Facts about interleavings\<close>

lemma resumes_finish:
  "interleave [Resume t, Resume t, Resume t] \<lparr>handler = s, pending = setPending t p []\<rparr>
     = \<lparr>handler = finish (p, s), pending = []\<rparr>"
proof (cases p)
  case None
  then show ?thesis by (simp add: setPending_def finish_def followThrough_def)
next
  case (Some q)
  then show ?thesis
    by (cases q) (simp_all add: setPending_def finish_def followThrough_def)
qed

lemma call_locked:
  "taskOf e = Some t \<Longrightarrow>
     advance (Call e) \<lparr>handler = s, pending = []\<rparr>
       = \<lparr>handler = snd (locked e s), pending = setPending t (fst (locked e s)) []\<rparr>"
  by (simp add: busy_def case_prod_unfold)

lemma step_finish: "taskOf e = Some t \<Longrightarrow> step e s = finish (locked e s)"
  by (cases e) (simp_all add: readinessRun_def livenessRun_def watchIter_def case_prod_unfold)

lemma step_interleaved:
  assumes "taskOf e = Some t"
  shows "interleave [Call e, Resume t, Resume t, Resume t] \<lparr>handler = s, pending = []\<rparr>
       = \<lparr>handler = step e s, pending = []\<rparr>"
proof -
  have "interleave [Call e, Resume t, Resume t, Resume t] \<lparr>handler = s, pending = []\<rparr>
      = interleave [Resume t, Resume t, Resume t]
          \<lparr>handler = snd (locked e s), pending = setPending t (fst (locked e s)) []\<rparr>"
    using call_locked [OF assms, of s] by (simp del: advance.simps)
  also have "\<dots> = \<lparr>handler = finish (fst (locked e s), snd (locked e s)), pending = []\<rparr>"
    by (rule resumes_finish)
  finally show ?thesis using step_finish [OF assms, of s] by simp
qed

lemma registration_interleaved:
  "taskOf e = None \<Longrightarrow> interleave [Call e] sys = sys\<lparr>handler := step e (handler sys)\<rparr>"
  by (cases e) (simp_all add: busy_def)




















section \<open>Claims\<close>

subsection \<open>C2: duplicate registration\<close>

text \<open>
  C2. In each namespace (readiness, liveness, gRPC dependency), when the name is already
  registered, a further registration call with that name returns the conflict error
  of that namespace and leaves the handler, and with it the stored result of the first
  registration, exactly as it was.
\<close>

theorem duplicate_registration_conflict:
  "(map_of (readinessChecks s) name = Some r \<longrightarrow>
      AddReadinessCheck name s
        = (Some (''readiness check '' @ quoted name @ '' already exists''), s))
   \<and> (map_of (livenessChecks s) name = Some r \<longrightarrow>
      AddLivenessCheck name s
        = (Some (''liveness check '' @ quoted name @ '' already exists''), s))
   \<and> (map_of (grpcDeps s) name = Some b \<longrightarrow>
      AddGrpcReadinessCheck name watchErr s
        = (Some (''grpc readiness check '' @ quoted name @ '' already exists''), s))"
  by (simp add: AddReadinessCheck_def AddLivenessCheck_def AddGrpcReadinessCheck_def)

theorem duplicate_registration_conflict_witness:
  "AddReadinessCheck ''db''
      \<lparr>readinessChecks = [(''db'', None)], livenessChecks = [(''db'', None)],
       grpcDeps = [(''db'', True)], grpcHealthServer = SERVING\<rparr>
     = (Some (''readiness check '' @ quoted ''db'' @ '' already exists''),
        \<lparr>readinessChecks = [(''db'', None)], livenessChecks = [(''db'', None)],
         grpcDeps = [(''db'', True)], grpcHealthServer = SERVING\<rparr>)
   \<and> AddLivenessCheck ''db''
      \<lparr>readinessChecks = [(''db'', None)], livenessChecks = [(''db'', None)],
       grpcDeps = [(''db'', True)], grpcHealthServer = SERVING\<rparr>
     = (Some (''liveness check '' @ quoted ''db'' @ '' already exists''),
        \<lparr>readinessChecks = [(''db'', None)], livenessChecks = [(''db'', None)],
         grpcDeps = [(''db'', True)], grpcHealthServer = SERVING\<rparr>)
   \<and> AddGrpcReadinessCheck ''db'' None
      \<lparr>readinessChecks = [(''db'', None)], livenessChecks = [(''db'', None)],
       grpcDeps = [(''db'', True)], grpcHealthServer = SERVING\<rparr>
     = (Some (''grpc readiness check '' @ quoted ''db'' @ '' already exists''),
        \<lparr>readinessChecks = [(''db'', None)], livenessChecks = [(''db'', None)],
         grpcDeps = [(''db'', True)], grpcHealthServer = SERVING\<rparr>)"
  using duplicate_registration_conflict
    [of "\<lparr>readinessChecks = [(''db'', None)], livenessChecks = [(''db'', None)],
          grpcDeps = [(''db'', True)], grpcHealthServer = SERVING\<rparr>" "''db''" None True None]
  by simp

subsection \<open>C10: the unary gRPC check\<close>

text \<open>
  C10. The check built by \<open>CheckGRPC\<close> succeeds (returns \<open>nil\<close>) exactly when the unary
  \<open>Check\<close> call came back without an error and with status \<open>SERVING\<close>. Every response
  with another status, \<open>UNKNOWN\<close> in particular, gives a failure, and so does every
  error of the call, the expiry of its one-second context among them.
\<close>

theorem CheckGRPC_success_iff:
  "(CheckGRPC statusName (resp, err) = Inr None \<longleftrightarrow> err = None \<and> resp = Some SERVING)
   \<and> (\<forall>st. st \<noteq> SERVING \<longrightarrow> (\<exists>msg. CheckGRPC statusName (Some st, None) = Inr (Some msg)))
   \<and> (\<exists>msg. CheckGRPC statusName (Some UNKNOWN, None) = Inr (Some msg))
   \<and> (\<forall>e. \<exists>msg. CheckGRPC statusName (resp, Some e) = Inr (Some msg))"
  by (auto simp: CheckGRPC_def split: option.splits)

theorem CheckGRPC_success_iff_witness:
  "CheckGRPC (\<lambda>_. ''NOT_SERVING'') (Some NOT_SERVING, None) \<noteq> Inr None
   \<and> CheckGRPC (\<lambda>_. ''SERVING'') (Some SERVING, None) = Inr None
   \<and> (\<exists>msg. CheckGRPC (\<lambda>_. ''NOT_SERVING'') (Some NOT_SERVING, None) = Inr (Some msg))"
  using CheckGRPC_success_iff [of "\<lambda>_. ''NOT_SERVING''" "Some NOT_SERVING" None]
        CheckGRPC_success_iff [of "\<lambda>_. ''SERVING''" "Some SERVING" None]
  by simp

subsection \<open>C4: the two aggregates\<close>

text \<open>
  C4. The aggregate computed by \<open>/ready\<close> is true exactly when every stored readiness
  result is \<open>nil\<close>, every stored liveness result is \<open>nil\<close> and every gRPC dependency
  flag is true, and a GET sends 200 for a true aggregate and 503 otherwise. The
  aggregate computed by \<open>/live\<close> is true exactly when every stored liveness result is
  \<open>nil\<close>, and the whole \<open>/live\<close> response stays the same whatever the readiness results
  and the gRPC dependency flags are replaced by.
\<close>

theorem ready_and_live_aggregates:
  "(fst (readyCollect s) \<longleftrightarrow>
      (\<forall>(name, r) \<in> set (readinessChecks s). r = None)
      \<and> (\<forall>(name, r) \<in> set (livenessChecks s). r = None)
      \<and> (\<forall>(name, up) \<in> set (grpcDeps s). up))
   \<and> statusCode (ReadyEndpoint \<lparr>httpMethod = ''GET'', queryFull = q\<rparr> s)
       = (if fst (readyCollect s) then 200 else 503)
   \<and> (fst (livenessOkWithResults s []) \<longleftrightarrow> (\<forall>(name, r) \<in> set (livenessChecks s). r = None))
   \<and> statusCode (LiveEndpoint \<lparr>httpMethod = ''GET'', queryFull = q\<rparr> s)
       = (if fst (livenessOkWithResults s []) then 200 else 503)
   \<and> LiveEndpoint r (s\<lparr>readinessChecks := rc, grpcDeps := gd\<rparr>) = LiveEndpoint r s"
proof -
  have ready: "fst (readyCollect s) \<longleftrightarrow>
      (\<forall>(name, r) \<in> set (readinessChecks s). r = None)
      \<and> (\<forall>(name, r) \<in> set (livenessChecks s). r = None)
      \<and> (\<forall>(name, up) \<in> set (grpcDeps s). up)"
    unfolding readyCollect_ok allNil_iff allUp_iff by blast
  have readyCode: "statusCode (ReadyEndpoint \<lparr>httpMethod = ''GET'', queryFull = q\<rparr> s)
       = (if fst (readyCollect s) then 200 else 503)"
    by (simp add: ReadyEndpoint_def case_prod_unfold)
  have live: "fst (livenessOkWithResults s []) \<longleftrightarrow> (\<forall>(name, r) \<in> set (livenessChecks s). r = None)"
    by (simp add: livenessOkWithResults_def checksWithResults_ok allNil_iff)
  have liveCode: "statusCode (LiveEndpoint \<lparr>httpMethod = ''GET'', queryFull = q\<rparr> s)
       = (if fst (livenessOkWithResults s []) then 200 else 503)"
    by (simp add: LiveEndpoint_def case_prod_unfold)
  have frame: "LiveEndpoint r (s\<lparr>readinessChecks := rc, grpcDeps := gd\<rparr>) = LiveEndpoint r s"
    by (simp add: LiveEndpoint_def livenessOkWithResults_def)
  from ready readyCode live liveCode frame show ?thesis by blast
qed

theorem ready_and_live_aggregates_witness:
  "statusCode (ReadyEndpoint \<lparr>httpMethod = ''GET'', queryFull = ''''\<rparr>
      \<lparr>readinessChecks = [(''db'', None)], livenessChecks = [(''mem'', None)],
       grpcDeps = [(''auth'', False)], grpcHealthServer = NOT_SERVING\<rparr>) = 503
   \<and> statusCode (LiveEndpoint \<lparr>httpMethod = ''GET'', queryFull = ''''\<rparr>
      \<lparr>readinessChecks = [(''db'', None)], livenessChecks = [(''mem'', None)],
       grpcDeps = [(''auth'', False)], grpcHealthServer = NOT_SERVING\<rparr>) = 200"
  using ready_and_live_aggregates
    [of "\<lparr>readinessChecks = [(''db'', None)], livenessChecks = [(''mem'', None)],
       grpcDeps = [(''auth'', False)], grpcHealthServer = NOT_SERVING\<rparr>" "''''"]
  by simp

subsection \<open>C7: the body of \<open>/ready?full=1\<close>\<close>

text \<open>
  C7. After a readiness check \<open>db\<close> and a liveness check \<open>mem\<close> are registered and \<open>db\<close>
  has run once with success, \<open>mem\<close> not yet, a GET of \<open>/ready\<close> with \<open>full=1\<close> answers with
  a map whose only key is \<open>mem\<close>, while \<open>db\<close> is a registered readiness check: the
  liveness pass made \<open>ok\<close> false, so the readiness and gRPC passes were never called
  and wrote nothing.
\<close>

theorem ready_full_omits_names:
  "payload (ReadyEndpoint \<lparr>httpMethod = ''GET'', queryFull = ''1''\<rparr>
     (exec [RegReadiness ''db'', RegLiveness ''mem'', RunReadiness ''db'' None] NewGrpcHandler))
   = Json [(''mem'', ''placeholder'')]
   \<and> map fst (readinessChecks
        (exec [RegReadiness ''db'', RegLiveness ''mem'', RunReadiness ''db'' None] NewGrpcHandler))
      = [''db'']"
  by (simp add: NewGrpcHandler_def SetServingStatus_def AddReadinessCheck_def AddLivenessCheck_def
      readinessRun_unfold checkAt_def areChecksOk_def ReadyEndpoint_def readyCollect_def
      livenessOkWithResults_def)

subsection \<open>C6: a run that does not change the class of the result\<close>

text \<open>
  C6, as stated, fails: a readiness check \<open>db\<close> that has just been registered holds the
  placeholder failure; when its run fails with the message \<open>timeout\<close>, the stored result
  is still the placeholder, not the new failure.
\<close>

theorem same_class_run_keeps_old_result:
  "readinessChecks (readinessRun ''db'' (Some ''timeout'') (snd (AddReadinessCheck ''db'' NewGrpcHandler)))
     = [(''db'', Some ''placeholder'')]
   \<and> checkAt (readinessChecks
         (readinessRun ''db'' (Some ''timeout'') (snd (AddReadinessCheck ''db'' NewGrpcHandler)))) ''db''
       \<noteq> Some ''timeout''"
  by (simp add: readinessRun_unfold AddReadinessCheck_def NewGrpcHandler_def SetServingStatus_def checkAt_def)

text \<open>
  C6, amended. When the error returned by a run of a readiness or liveness check is
  \<open>nil\<close> exactly if the result stored for that name is \<open>nil\<close>, the run leaves the whole
  handler as it was: the stored result keeps its earlier value (a new failure message
  is not stored), and the serving status and every other entry of the three maps are
  unchanged.
\<close>

theorem same_class_run_changes_nothing:
  "((checkAt (readinessChecks s) name = None) = (err = None) \<longrightarrow> readinessRun name err s = s)
   \<and> ((checkAt (livenessChecks s) name = None) = (err = None) \<longrightarrow> livenessRun name err s = s)"
  by (auto simp: readinessRun_unfold livenessRun_unfold)

theorem same_class_run_changes_nothing_witness:
  "readinessRun ''db'' (Some ''timeout'')
     \<lparr>readinessChecks = [(''db'', Some ''placeholder'')], livenessChecks = [(''mem'', None)],
       grpcDeps = [], grpcHealthServer = NOT_SERVING\<rparr>
   = \<lparr>readinessChecks = [(''db'', Some ''placeholder'')], livenessChecks = [(''mem'', None)],
       grpcDeps = [], grpcHealthServer = NOT_SERVING\<rparr>
  \<and> livenessRun ''mem'' None
     \<lparr>readinessChecks = [(''db'', Some ''placeholder'')], livenessChecks = [(''mem'', None)],
       grpcDeps = [], grpcHealthServer = NOT_SERVING\<rparr>
   = \<lparr>readinessChecks = [(''db'', Some ''placeholder'')], livenessChecks = [(''mem'', None)],
       grpcDeps = [], grpcHealthServer = NOT_SERVING\<rparr>"
  using same_class_run_changes_nothing
     [of "\<lparr>readinessChecks = [(''db'', Some ''placeholder'')], livenessChecks = [(''mem'', None)],
       grpcDeps = [], grpcHealthServer = NOT_SERVING\<rparr>" "''db''" "Some ''timeout''"]
    same_class_run_changes_nothing
     [of "\<lparr>readinessChecks = [(''db'', Some ''placeholder'')], livenessChecks = [(''mem'', None)],
       grpcDeps = [], grpcHealthServer = NOT_SERVING\<rparr>" "''mem''" "None"]
  by (simp add: checkAt_def)

subsection \<open>C3: a fresh registration is unhealthy\<close>

text \<open>
  C3. When a name that is not yet in its namespace is registered, the call stores the
  placeholder failure (for a gRPC dependency: the flag false), and that stored result
  is still there after any sequence of events that contains no run of that check (for
  a gRPC dependency: no value received by its watch task). A readiness or liveness
  registration returns \<open>nil\<close>; a gRPC registration returns whatever \<open>Watch\<close> returned.
\<close>

theorem fresh_registration_unhealthy:
  "(map_of (readinessChecks s) name = None \<and> (\<forall>err. RunReadiness name err \<notin> set evs) \<longrightarrow>
      fst (AddReadinessCheck name s) = None
      \<and> map_of (readinessChecks (exec evs (snd (AddReadinessCheck name s)))) name
          = Some (Some ''placeholder''))
   \<and> (map_of (livenessChecks s) name = None \<and> (\<forall>err. RunLiveness name err \<notin> set evs) \<longrightarrow>
      fst (AddLivenessCheck name s) = None
      \<and> map_of (livenessChecks (exec evs (snd (AddLivenessCheck name s)))) name
          = Some (Some ''placeholder''))
   \<and> (map_of (grpcDeps s) name = None \<and> (\<forall>r. Recv name r \<notin> set evs) \<longrightarrow>
      fst (AddGrpcReadinessCheck name watchErr s) = watchErr
      \<and> map_of (grpcDeps (exec evs (snd (AddGrpcReadinessCheck name watchErr s)))) name
          = Some False)"
proof (intro conjI impI)
  assume "map_of (readinessChecks s) name = None \<and> (\<forall>err. RunReadiness name err \<notin> set evs)"
  then show "fst (AddReadinessCheck name s) = None"
    and "map_of (readinessChecks (exec evs (snd (AddReadinessCheck name s)))) name
          = Some (Some ''placeholder'')"
    by (simp_all add: AddReadinessCheck_def exec_keeps_readiness update_conv')
next
  assume "map_of (livenessChecks s) name = None \<and> (\<forall>err. RunLiveness name err \<notin> set evs)"
  then show "fst (AddLivenessCheck name s) = None"
    and "map_of (livenessChecks (exec evs (snd (AddLivenessCheck name s)))) name
          = Some (Some ''placeholder'')"
    by (simp_all add: AddLivenessCheck_def exec_keeps_liveness update_conv')
next
  assume "map_of (grpcDeps s) name = None \<and> (\<forall>r. Recv name r \<notin> set evs)"
  then show "fst (AddGrpcReadinessCheck name watchErr s) = watchErr"
    and "map_of (grpcDeps (exec evs (snd (AddGrpcReadinessCheck name watchErr s)))) name
          = Some False"
    by (auto simp add: AddGrpcReadinessCheck_def exec_keeps_grpcDep update_conv' Let_def)
qed

theorem fresh_registration_unhealthy_witness:
  "map_of (readinessChecks (exec [RegLiveness ''db'', RunLiveness ''db'' None, RegReadiness ''db'']
       (snd (AddReadinessCheck ''db'' NewGrpcHandler)))) ''db'' = Some (Some ''placeholder'')
   \<and> map_of (livenessChecks (exec [RegReadiness ''mem'', RunReadiness ''mem'' None]
       (snd (AddLivenessCheck ''mem'' NewGrpcHandler)))) ''mem'' = Some (Some ''placeholder'')
   \<and> map_of (grpcDeps (exec [RegGrpc ''billing'' None, Recv ''billing'' (Some SERVING, NoErr)]
       (snd (AddGrpcReadinessCheck ''auth'' None NewGrpcHandler)))) ''auth'' = Some False"
  using fresh_registration_unhealthy
          [of NewGrpcHandler "''db''" "[RegLiveness ''db'', RunLiveness ''db'' None, RegReadiness ''db'']"]
        fresh_registration_unhealthy
          [of NewGrpcHandler "''mem''" "[RegReadiness ''mem'', RunReadiness ''mem'' None]"]
        fresh_registration_unhealthy
          [of NewGrpcHandler "''auth''"
              "[RegGrpc ''billing'' None, Recv ''billing'' (Some SERVING, NoErr)]" None]
  by (simp add: NewGrpcHandler_def SetServingStatus_def)

subsection \<open>C5: one recovery among several failures\<close>

text \<open>
  C5. When a readiness check, a liveness check or a gRPC dependency reports success
  (\<open>nil\<close>, or a received \<open>SERVING\<close>) while some other stored result, under another name or
  in another namespace, is a failure or a false flag, the step leaves the serving
  status as it was: it is not set to \<open>SERVING\<close>.
\<close>

theorem single_recovery_keeps_flag:
  "((\<exists>m r. (m, Some r) \<in> set (readinessChecks s) \<and> m \<noteq> name)
      \<or> (\<exists>m r. (m, Some r) \<in> set (livenessChecks s))
      \<or> (\<exists>m. (m, False) \<in> set (grpcDeps s))
     \<longrightarrow> grpcHealthServer (readinessRun name None s) = grpcHealthServer s)
   \<and> ((\<exists>m r. (m, Some r) \<in> set (readinessChecks s))
      \<or> (\<exists>m r. (m, Some r) \<in> set (livenessChecks s) \<and> m \<noteq> name)
      \<or> (\<exists>m. (m, False) \<in> set (grpcDeps s))
     \<longrightarrow> grpcHealthServer (livenessRun name None s) = grpcHealthServer s)
   \<and> ((\<exists>m r. (m, Some r) \<in> set (readinessChecks s))
      \<or> (\<exists>m r. (m, Some r) \<in> set (livenessChecks s))
      \<or> (\<exists>m. (m, False) \<in> set (grpcDeps s) \<and> m \<noteq> name)
     \<longrightarrow> grpcHealthServer (snd (watchIter name (Some SERVING, err) s)) = grpcHealthServer s)"
  using readinessRun_recovery_blocked [of s name] livenessRun_recovery_blocked [of s name]
        watchIter_recovery_blocked [of s name err]
  by blast

theorem single_recovery_keeps_flag_witness:
  "grpcHealthServer (readinessRun ''db'' None
      \<lparr>readinessChecks = [(''db'', Some ''placeholder''), (''cache'', Some ''placeholder'')],
       livenessChecks = [(''mem'', Some ''placeholder'')],
       grpcDeps = [(''auth'', False), (''billing'', False)],
       grpcHealthServer = NOT_SERVING\<rparr>) = NOT_SERVING
   \<and> grpcHealthServer (livenessRun ''mem'' None
      \<lparr>readinessChecks = [(''db'', Some ''placeholder''), (''cache'', Some ''placeholder'')],
       livenessChecks = [(''mem'', Some ''placeholder'')],
       grpcDeps = [(''auth'', False), (''billing'', False)],
       grpcHealthServer = NOT_SERVING\<rparr>) = NOT_SERVING
   \<and> grpcHealthServer (snd (watchIter ''auth'' (Some SERVING, NoErr)
      \<lparr>readinessChecks = [(''db'', Some ''placeholder''), (''cache'', Some ''placeholder'')],
       livenessChecks = [(''mem'', Some ''placeholder'')],
       grpcDeps = [(''auth'', False), (''billing'', False)],
       grpcHealthServer = NOT_SERVING\<rparr>)) = NOT_SERVING"
proof -
  have other: "(''cache'', Some ''placeholder'')
      \<in> set [(''db'', Some ''placeholder''), (''cache'', Some ''placeholder'')]
      \<and> ''cache'' \<noteq> ''db''"
    by simp
  have dep: "(''billing'', False) \<in> set [(''auth'', False), (''billing'', False)]
      \<and> ''billing'' \<noteq> ''auth''"
    by simp
  show ?thesis
    using other dep
      single_recovery_keeps_flag
        [of "\<lparr>readinessChecks = [(''db'', Some ''placeholder''), (''cache'', Some ''placeholder'')],
              livenessChecks = [(''mem'', Some ''placeholder'')],
              grpcDeps = [(''auth'', False), (''billing'', False)],
              grpcHealthServer = NOT_SERVING\<rparr>" "''db''" NoErr]
      single_recovery_keeps_flag
        [of "\<lparr>readinessChecks = [(''db'', Some ''placeholder''), (''cache'', Some ''placeholder'')],
              livenessChecks = [(''mem'', Some ''placeholder'')],
              grpcDeps = [(''auth'', False), (''billing'', False)],
              grpcHealthServer = NOT_SERVING\<rparr>" "''mem''" NoErr]
      single_recovery_keeps_flag
        [of "\<lparr>readinessChecks = [(''db'', Some ''placeholder''), (''cache'', Some ''placeholder'')],
              livenessChecks = [(''mem'', Some ''placeholder'')],
              grpcDeps = [(''auth'', False), (''billing'', False)],
              grpcHealthServer = NOT_SERVING\<rparr>" "''auth''" NoErr]
    by auto
qed

subsection \<open>C8: the end of a watch stream\<close>

text \<open>
  C8. When \<open>Recv\<close> reports the clean end of the stream (\<open>io.EOF\<close> with a \<open>nil\<close>
  response), the pass through the loop body ends in the nil-pointer panic, with the
  handler's data as it was; the watch loop stops there in the state \<open>Panicked\<close>, not in
  \<open>Returned\<close>.
\<close>

theorem watch_eof_panics:
  "watchIter name (None, EOF) s = (Panicked, s)
   \<and> watchLoop name ((None, EOF) # rest) s = (Panicked, s)"
  by (simp add: watchIter_unfold)

subsection \<open>C1: the serving status and the stored results\<close>




subsection \<open>C9: status codes and bodies of the endpoints\<close>

text \<open>
  C9. With the readiness check \<open>db\<close> healthy, the gRPC dependency \<open>auth\<close> up and the
  liveness check \<open>mem\<close> still holding its placeholder failure, a GET of \<open>/ready\<close> with
  \<open>full=1\<close> is answered with 503 and a body that lists \<open>mem\<close> only, not \<open>db\<close> and \<open>auth\<close>:
  the failure case does not send the full per-check map. At the same handler \<open>/live\<close>
  with \<open>full=1\<close> sends 503 with its whole map, a GET of \<open>/ready\<close> without \<open>full=1\<close> sends
  503 with the body \<open>{}\<close>, and a POST is answered with 405.
\<close>

theorem ready_failure_body_not_full:
  "ReadyEndpoint \<lparr>httpMethod = ''GET'', queryFull = ''1''\<rparr>
     \<lparr>readinessChecks = [(''db'', None)], livenessChecks = [(''mem'', Some ''placeholder'')],
      grpcDeps = [(''auth'', True)], grpcHealthServer = NOT_SERVING\<rparr>
   = \<lparr>statusCode = 503, contentType = ''application/json; charset=utf-8'',
      payload = Json [(''mem'', ''placeholder'')]\<rparr>
   \<and> LiveEndpoint \<lparr>httpMethod = ''GET'', queryFull = ''1''\<rparr>
     \<lparr>readinessChecks = [(''db'', None)], livenessChecks = [(''mem'', Some ''placeholder'')],
      grpcDeps = [(''auth'', True)], grpcHealthServer = NOT_SERVING\<rparr>
   = \<lparr>statusCode = 503, contentType = ''application/json; charset=utf-8'',
      payload = Json [(''mem'', ''placeholder'')]\<rparr>
   \<and> ReadyEndpoint \<lparr>httpMethod = ''GET'', queryFull = ''''\<rparr>
     \<lparr>readinessChecks = [(''db'', None)], livenessChecks = [(''mem'', Some ''placeholder'')],
      grpcDeps = [(''auth'', True)], grpcHealthServer = NOT_SERVING\<rparr>
   = \<lparr>statusCode = 503, contentType = ''application/json; charset=utf-8'',
      payload = Text (''{}'' @ [CHR 0x0A])\<rparr>
   \<and> statusCode (ReadyEndpoint \<lparr>httpMethod = ''POST'', queryFull = ''1''\<rparr>
     \<lparr>readinessChecks = [(''db'', None)], livenessChecks = [(''mem'', Some ''placeholder'')],
      grpcDeps = [(''auth'', True)], grpcHealthServer = NOT_SERVING\<rparr>) = 405"
  by (simp add: ReadyEndpoint_def LiveEndpoint_def readyCollect_def livenessOkWithResults_def
      methodNotAllowed_def)

end
